theory Spec2Isabelle
  imports Main "HOL-Library.Word"
begin

unbundle bit_operations_syntax

section \<open>EncryptedDiceGame.sol: data model\<close>

text \<open>
  Solidity value types are machine words: \<open>address\<close> is 160 bits, \<open>uint256\<close>,
  \<open>uint32\<close> and \<open>uint8\<close> are unsigned words whose comparisons are unsigned.
  \<open>bytes32\<close> input handles are 256-bit words, \<open>bytes\<close> proofs are byte lists.
\<close>

type_synonym address = "160 word"
type_synonym uint256 = "256 word"
type_synonym uint32 = "32 word"
type_synonym uint8 = "8 word"
type_synonym bytes32 = "256 word"
type_synonym bytes = "8 word list"

text \<open>
  The custom errors declared at the top of the contract, followed by the other ways a
  call reverts: a failed \<open>require\<close> (with its message), a Solidity 0.8 panic
  (checked arithmetic, array index), a rejected input proof in \<open>FHE.fromExternal\<close>,
  and a native transfer the recipient does not accept.
\<close>

datatype error =
    OnlyOwner
  | InvalidDiceCount
  | InvalidStakeAmount
  | GameNotFound
  | GameAlreadyResolved
  | InsufficientBalance
  | ZeroAddress
  | MaxMintExceeded
  | NoETHSent
  | OnlyGamePlayer
  | RequireFailed string
  | Panic
  | InvalidProof
  | TransferFailed

subsection \<open>The encrypted arithmetic library\<close>

text \<open>
  Modelled from the spec: the FHE library (\<open>@fhevm/solidity/lib/FHE.sol\<close>) is an
  external dependency. Section 6 of the specification lists its operations: lifting a
  constant, lifting an external ciphertext with its proof, add, sub, bitwise and,
  equality and conditional select. A ciphertext handle is modelled by the plaintext it
  decrypts to; the zero handle of a storage slot never written is \<open>Uninit32\<close>
  (\<open>Uninit8\<close>), which every operation reads as an encryption of 0. Arithmetic is on
  the bounded width of the type and wraps around. Decryption grants
  (\<open>FHE.allow\<close>, \<open>FHE.allowThis\<close>, \<open>FHE.makePubliclyDecryptable\<close>) write the
  access-control list of the library only, and emitted events write the log only;
  neither is contract storage and neither is part of this model.
\<close>

datatype euint32 = Uninit32 | Enc32 uint32
datatype euint8 = Uninit8 | Enc8 uint8
datatype ebool = EncBool bool

fun decrypt32 :: "euint32 \<Rightarrow> uint32" where
  "decrypt32 Uninit32 = 0"
| "decrypt32 (Enc32 w) = w"

fun decrypt8 :: "euint8 \<Rightarrow> uint8" where
  "decrypt8 Uninit8 = 0"
| "decrypt8 (Enc8 w) = w"

fun decryptBool :: "ebool \<Rightarrow> bool" where
  "decryptBool (EncBool b) = b"

definition asEuint32 :: "uint32 \<Rightarrow> euint32" where
  "asEuint32 w = Enc32 w"

definition asEuint8 :: "uint8 \<Rightarrow> euint8" where
  "asEuint8 w = Enc8 w"

definition FHE_add :: "euint32 \<Rightarrow> euint32 \<Rightarrow> euint32" where
  "FHE_add a b = Enc32 (decrypt32 a + decrypt32 b)"

definition FHE_sub :: "euint32 \<Rightarrow> euint32 \<Rightarrow> euint32" where
  "FHE_sub a b = Enc32 (decrypt32 a - decrypt32 b)"

definition FHE_and :: "euint32 \<Rightarrow> euint32 \<Rightarrow> euint32" where
  "FHE_and a b = Enc32 (decrypt32 a AND decrypt32 b)"

definition FHE_eq32 :: "euint32 \<Rightarrow> euint32 \<Rightarrow> ebool" where
  "FHE_eq32 a b = EncBool (decrypt32 a = decrypt32 b)"

definition FHE_eq8 :: "euint8 \<Rightarrow> euint8 \<Rightarrow> ebool" where
  "FHE_eq8 a b = EncBool (decrypt8 a = decrypt8 b)"

definition FHE_eqBool :: "ebool \<Rightarrow> ebool \<Rightarrow> ebool" where
  "FHE_eqBool a b = EncBool (decryptBool a = decryptBool b)"

definition FHE_select :: "ebool \<Rightarrow> euint32 \<Rightarrow> euint32 \<Rightarrow> euint32" where
  "FHE_select c a b = Enc32 (if decryptBool c then decrypt32 a else decrypt32 b)"

subsection \<open>The transaction environment\<close>

text \<open>
  What a call reads from outside the contract's storage: \<open>msg.sender\<close>,
  \<open>block.timestamp\<close>, \<open>block.prevrandao\<close>, and three things the chain decides and the
  contract source does not: the hash \<open>keccak256(abi.encodePacked(timestamp, prevrandao,
  gameId, i))\<close>, the input verifier behind \<open>FHE.fromExternal\<close> (the plaintext of a
  handle whose proof it accepts, \<open>None\<close> when it rejects), and whether an address
  accepts a plain native transfer of 2300 gas.
\<close>

record env =
  msg_sender :: address
  block_timestamp :: uint256
  block_prevrandao :: uint256
  keccak256_packed :: "uint256 \<Rightarrow> uint256 \<Rightarrow> uint256 \<Rightarrow> uint8 \<Rightarrow> uint256"
  verify32 :: "bytes32 \<Rightarrow> bytes \<Rightarrow> uint32 option"
  verify8 :: "bytes32 \<Rightarrow> bytes \<Rightarrow> uint8 option"
  acceptsTransfer :: "address \<Rightarrow> bool"

definition fromExternal32 :: "env \<Rightarrow> bytes32 \<Rightarrow> bytes \<Rightarrow> error + euint32" where
  "fromExternal32 e h proof =
     (case verify32 e h proof of None \<Rightarrow> Inl InvalidProof | Some w \<Rightarrow> Inr (Enc32 w))"

definition fromExternal8 :: "env \<Rightarrow> bytes32 \<Rightarrow> bytes \<Rightarrow> error + euint8" where
  "fromExternal8 e h proof =
     (case verify8 e h proof of None \<Rightarrow> Inl InvalidProof | Some w \<Rightarrow> Inr (Enc8 w))"

subsection \<open>Contract storage\<close>

record game =
  player :: address
  diceCount :: uint8
  prediction :: euint8
  stakeAmount :: euint32
  diceValues :: "euint32 list"
  timestamp :: uint256
  isResolved :: bool

text \<open>
  Mappings are total, with the zero value at every key never written.
  \<open>thisBalance\<close> is \<open>address(this).balance\<close>, the treasury.
\<close>

record state =
  owner :: address
  gameCounter :: uint256
  playerBalance :: "address \<Rightarrow> euint32"
  games :: "uint256 \<Rightarrow> game"
  playerGames :: "address \<Rightarrow> uint256 list"
  thisBalance :: uint256

definition zeroGame :: game where
  "zeroGame = \<lparr>player = 0, diceCount = 0, prediction = Uninit8, stakeAmount = Uninit32,
     diceValues = [], timestamp = 0, isResolved = False\<rparr>"

text \<open>The constructor: \<open>owner = msg.sender; gameCounter = 0\<close>.\<close>

definition constructor :: "env \<Rightarrow> state" where
  "constructor e = \<lparr>owner = msg_sender e, gameCounter = 0,
     playerBalance = (\<lambda>_. Uninit32), games = (\<lambda>_. zeroGame),
     playerGames = (\<lambda>_. []), thisBalance = 0\<rparr>"

subsection \<open>Constants\<close>

definition PAYOUT_MULTIPLIER :: uint256 where "PAYOUT_MULTIPLIER = 195"
definition BASIS_POINTS :: uint256 where "BASIS_POINTS = 100"
definition ether :: uint256 where "ether = 1000000000000000000"
definition MIN_STAKE :: uint256 where "MIN_STAKE = 1 * ether"
definition MAX_STAKE :: uint256 where "MAX_STAKE = 1000 * ether"
definition ROLL_TOKEN_RATE :: uint256 where "ROLL_TOKEN_RATE = 1000"
definition MAX_MINT :: uint256 where "MAX_MINT = 10000 * ether"

text \<open>Checked multiplication of Solidity 0.8: a product that leaves 256 bits panics.\<close>

definition checked_mul :: "uint256 \<Rightarrow> uint256 \<Rightarrow> error + uint256" where
  "checked_mul a b = (if unat a * unat b < 2 ^ 256 then Inr (a * b) else Inl Panic)"

section \<open>Entry points\<close>

text \<open>
  Every entry point returns \<open>Inl\<close> of the error when the call reverts (no storage
  write survives) and \<open>Inr\<close> of the new storage otherwise. A payable entry point takes
  \<open>msg.value\<close> as its argument; the value is part of the contract's balance from the
  start of the call. The others are not payable and receive no value.
\<close>

definition mintTokens :: "env \<Rightarrow> state \<Rightarrow> uint256 \<Rightarrow> error + state" where
  "mintTokens e s amount =
     (if amount > MAX_MINT then Inl MaxMintExceeded
      else
        let encryptedAmount = asEuint32 (ucast amount :: uint32)
        in Inr (s\<lparr>playerBalance := (playerBalance s)
                  (msg_sender e := FHE_add (playerBalance s (msg_sender e)) encryptedAmount)\<rparr>))"

definition swapETHForROLL :: "env \<Rightarrow> state \<Rightarrow> uint256 \<Rightarrow> error + state" where
  "swapETHForROLL e s msg_value =
     (let s0 = s\<lparr>thisBalance := thisBalance s + msg_value\<rparr> in
      if msg_value = 0 then Inl NoETHSent
      else
        case checked_mul msg_value ROLL_TOKEN_RATE of
          Inl err \<Rightarrow> Inl err
        | Inr product \<Rightarrow>
            let rollAmount = product div (1 * ether) in
            if \<not> rollAmount \<le> 4294967295
            then Inl (RequireFailed ''ROLL amount too large for uint32'')
            else
              let encryptedAmount = asEuint32 (ucast rollAmount :: uint32)
              in Inr (s0\<lparr>playerBalance := (playerBalance s0)
                   (msg_sender e := FHE_add (playerBalance s0 (msg_sender e)) encryptedAmount)\<rparr>))"

definition swapROLLForETH :: "env \<Rightarrow> state \<Rightarrow> uint32 \<Rightarrow> bytes32 \<Rightarrow> bytes \<Rightarrow> error + state" where
  "swapROLLForETH e s rollAmount encryptedAmount amountProof =
     (if \<not> rollAmount > 0 then Inl (RequireFailed ''Amount must be greater than 0'')
      else
        case checked_mul (ucast rollAmount :: uint256) (1 * ether) of
          Inl err \<Rightarrow> Inl err
        | Inr product \<Rightarrow>
            let ethAmount = product div ROLL_TOKEN_RATE in
            if \<not> thisBalance s \<ge> ethAmount
            then Inl (RequireFailed ''Insufficient contract ETH balance'')
            else
              (case fromExternal32 e encryptedAmount amountProof of
                 Inl err \<Rightarrow> Inl err
               | Inr encRollAmount \<Rightarrow>
                   let s1 = s\<lparr>playerBalance := (playerBalance s)
                         (msg_sender e := FHE_sub (playerBalance s (msg_sender e)) encRollAmount)\<rparr>
                   in if \<not> acceptsTransfer e (msg_sender e) then Inl TransferFailed
                      else Inr (s1\<lparr>thisBalance := thisBalance s1 - ethAmount\<rparr>)))"

definition addTreasuryETH :: "env \<Rightarrow> state \<Rightarrow> uint256 \<Rightarrow> error + state" where
  "addTreasuryETH e s msg_value =
     (let s0 = s\<lparr>thisBalance := thisBalance s + msg_value\<rparr> in
      if msg_sender e \<noteq> owner s0 then Inl OnlyOwner
      else if \<not> msg_value > 0 then Inl (RequireFailed ''Must send ETH'')
      else Inr s0)"

definition getContractETHBalance :: "state \<Rightarrow> uint256" where
  "getContractETHBalance s = thisBalance s"

text \<open>
  The modifier \<open>validDiceCount\<close> runs before the body. \<open>gameCounter++\<close> is checked
  arithmetic. \<open>new euint32[](diceCount)\<close> is an array of \<open>diceCount\<close> zero handles.
\<close>

definition startGame ::
  "env \<Rightarrow> state \<Rightarrow> uint8 \<Rightarrow> bytes32 \<Rightarrow> bytes \<Rightarrow> bytes32 \<Rightarrow> bytes \<Rightarrow> error + state" where
  "startGame e s dc encryptedPrediction predictionProof encryptedStake stakeProof =
     (if dc < 1 \<or> dc > 3 then Inl InvalidDiceCount
      else
        case fromExternal8 e encryptedPrediction predictionProof of
          Inl err \<Rightarrow> Inl err
        | Inr pred \<Rightarrow>
            (case fromExternal32 e encryptedStake stakeProof of
               Inl err \<Rightarrow> Inl err
             | Inr stake \<Rightarrow>
                 if gameCounter s = - 1 then Inl Panic
                 else
                   let gameId = gameCounter s;
                       g = (games s gameId)\<lparr>player := msg_sender e, diceCount := dc,
                              prediction := pred, stakeAmount := stake,
                              timestamp := block_timestamp e, isResolved := False,
                              diceValues := replicate (unat dc) Uninit32\<rparr>
                   in Inr (s\<lparr>gameCounter := gameCounter s + 1,
                            games := (games s)(gameId := g),
                            playerBalance := (playerBalance s)
                              (msg_sender e := FHE_sub (playerBalance s (msg_sender e)) stake),
                            playerGames := (playerGames s)
                              (msg_sender e := playerGames s (msg_sender e) @ [gameId])\<rparr>)))"

text \<open>
  The face of die \<open>i\<close>:
  \<open>uint32(uint256(keccak256(abi.encodePacked(block.timestamp, block.prevrandao, gameId, i))) % 6) + 1\<close>.
\<close>

definition randomValue :: "env \<Rightarrow> uint256 \<Rightarrow> uint8 \<Rightarrow> uint32" where
  "randomValue e gameId i =
     ucast (keccak256_packed e (block_timestamp e) (block_prevrandao e) gameId i mod 6) + 1"

text \<open>
  The loop \<open>for (uint8 i = 0; i < game.diceCount; ++i)\<close> of \<open>resolveGame\<close>, on the
  dice array and the running sum. Writing \<open>game.diceValues[i]\<close> beyond the array's
  length panics.
\<close>

function rollDice ::
  "env \<Rightarrow> uint256 \<Rightarrow> uint8 \<Rightarrow> uint8 \<Rightarrow> euint32 list \<Rightarrow> euint32 \<Rightarrow> error + (euint32 list \<times> euint32)" where
  "rollDice e gameId dc i dv sumE =
     (if i < dc then
        (if unat i < length dv then
           rollDice e gameId dc (i + 1)
             (dv[unat i := asEuint32 (randomValue e gameId i)])
             (FHE_add sumE (asEuint32 (randomValue e gameId i)))
         else Inl Panic)
      else Inr (dv, sumE))"
  by pat_completeness auto
termination
proof (relation "measure (\<lambda>(e, gameId, dc, i, dv, sumE). unat dc - unat i)")
  show "wf (measure (\<lambda>(e, gameId, dc, i, dv, sumE). unat dc - unat i))"
    by simp
next
  fix e :: env and gameId :: uint256 and dc i :: uint8 and dv :: "euint32 list" and sumE :: euint32
  assume lt: "i < dc"
  then have below: "unat i < unat dc"
    by (simp add: word_less_nat_alt)
  have "unat dc < 2 ^ 8"
    using unsigned_less [of dc] by simp
  with below have "unat (i + 1) = unat i + 1"
    by (simp add: unat_word_ariths)
  with below show "((e, gameId, dc, i + 1, dv[unat i := asEuint32 (randomValue e gameId i)],
                     FHE_add sumE (asEuint32 (randomValue e gameId i))),
                    (e, gameId, dc, i, dv, sumE))
                   \<in> measure (\<lambda>(e, gameId, dc, i, dv, sumE). unat dc - unat i)"
    by simp
qed

declare rollDice.simps [simp del]

definition resolveGame :: "env \<Rightarrow> state \<Rightarrow> uint256 \<Rightarrow> error + state" where
  "resolveGame e s gameId =
     (let g = games s gameId in
      if player g \<noteq> msg_sender e then Inl OnlyGamePlayer
      else if isResolved g then Inl GameAlreadyResolved
      else
        case rollDice e gameId (diceCount g) 0 (diceValues g) (asEuint32 0) of
          Inl err \<Rightarrow> Inl err
        | Inr (dv, sumE) \<Rightarrow>
            let leastBit = FHE_and sumE (asEuint32 1);
                isEven = FHE_eq32 leastBit (asEuint32 0);
                predictedEven = FHE_eq8 (prediction g) (asEuint8 0);
                won = FHE_eqBool isEven predictedEven;
                doublePayout = FHE_add (stakeAmount g) (stakeAmount g);
                finalPayout = FHE_select won doublePayout (asEuint32 0)
            in Inr (s\<lparr>playerBalance := (playerBalance s)
                      (msg_sender e := FHE_add (playerBalance s (msg_sender e)) finalPayout),
                    games := (games s)(gameId := g\<lparr>diceValues := dv, isResolved := True\<rparr>)\<rparr>))"

definition makeBalancePubliclyDecryptable :: "env \<Rightarrow> state \<Rightarrow> address \<Rightarrow> error + state" where
  "makeBalancePubliclyDecryptable e s p =
     (if \<not> (msg_sender e = p \<or> msg_sender e = owner s) then Inl (RequireFailed ''Unauthorized'')
      else Inr s)"

definition withdrawETH :: "env \<Rightarrow> state \<Rightarrow> error + state" where
  "withdrawETH e s =
     (if msg_sender e \<noteq> owner s then Inl OnlyOwner
      else if \<not> acceptsTransfer e (owner s) then Inl TransferFailed
      else Inr (s\<lparr>thisBalance := thisBalance s - thisBalance s\<rparr>))"

text \<open>\<open>receive() external payable {}\<close> and \<open>fallback() external payable {}\<close>.\<close>

definition receive :: "env \<Rightarrow> state \<Rightarrow> uint256 \<Rightarrow> error + state" where
  "receive e s msg_value = Inr (s\<lparr>thisBalance := thisBalance s + msg_value\<rparr>)"

definition fallback :: "env \<Rightarrow> state \<Rightarrow> uint256 \<Rightarrow> error + state" where
  "fallback e s msg_value = Inr (s\<lparr>thisBalance := thisBalance s + msg_value\<rparr>)"

subsection \<open>Transactions\<close>

text \<open>
  The state-changing entry points of the contract (the \<open>view\<close> functions write
  nothing). A transaction that reverts leaves the storage and the balance as they were.
\<close>

datatype call =
    MintTokens uint256
  | SwapETHForROLL uint256
  | SwapROLLForETH uint32 bytes32 bytes
  | AddTreasuryETH uint256
  | StartGame uint8 bytes32 bytes bytes32 bytes
  | ResolveGame uint256
  | MakeBalancePubliclyDecryptable address
  | WithdrawETH
  | Receive uint256
  | Fallback uint256

fun dispatch :: "env \<Rightarrow> state \<Rightarrow> call \<Rightarrow> error + state" where
  "dispatch e s (MintTokens amount) = mintTokens e s amount"
| "dispatch e s (SwapETHForROLL v) = swapETHForROLL e s v"
| "dispatch e s (SwapROLLForETH a h p) = swapROLLForETH e s a h p"
| "dispatch e s (AddTreasuryETH v) = addTreasuryETH e s v"
| "dispatch e s (StartGame dc ph pp sh sp) = startGame e s dc ph pp sh sp"
| "dispatch e s (ResolveGame gameId) = resolveGame e s gameId"
| "dispatch e s (MakeBalancePubliclyDecryptable p) = makeBalancePubliclyDecryptable e s p"
| "dispatch e s WithdrawETH = withdrawETH e s"
| "dispatch e s (Receive v) = receive e s v"
| "dispatch e s (Fallback v) = fallback e s v"

definition transact :: "env \<Rightarrow> state \<Rightarrow> call \<Rightarrow> state" where
  "transact e s c = (case dispatch e s c of Inl err \<Rightarrow> s | Inr s' \<Rightarrow> s')"

fun run :: "state \<Rightarrow> (env \<times> call) list \<Rightarrow> state" where
  "run s [] = s"
| "run s ((e, c) # cs) = run (transact e s c) cs"

subsection \<open>A concrete environment\<close>

text \<open>
  An environment on which the model can be evaluated: a stand-in hash, and an input
  verifier that accepts the proof \<open>[1]\<close> only and reads the plaintext from the low
  bits of the handle. Every transfer is accepted.
\<close>

definition testEnv :: "address \<Rightarrow> env" where
  "testEnv a = \<lparr>msg_sender = a, block_timestamp = 1700000000, block_prevrandao = 7,
     keccak256_packed = (\<lambda>t r g i. t + r + g + ucast i),
     verify32 = (\<lambda>h p. if p = [1] then Some (ucast h) else None),
     verify8 = (\<lambda>h p. if p = [1] then Some (ucast h) else None),
     acceptsTransfer = (\<lambda>_. True)\<rparr>"

text \<open>
  A scenario on that environment: the deployer is account 9; account 5 mints 1000 ROLL,
  starts game 0 with one die, prediction 0 (even) and stake 100, and resolves it.
\<close>

definition testStarted :: state where
  "testStarted = transact (testEnv 5) (transact (testEnv 5) (constructor (testEnv 9)) (MintTokens 1000))
       (StartGame 1 0 [1] 100 [1])"

definition testResolved :: state where
  "testResolved = transact (testEnv 5) testStarted (ResolveGame 0)"

text \<open>
  A funded contract: the owner, account 9, deposits 1 ether and account 5 mints 1000 ROLL.
\<close>

definition testFunded :: state where
  "testFunded = transact (testEnv 5) (transact (testEnv 9) (constructor (testEnv 9))
       (AddTreasuryETH 1000000000000000000)) (MintTokens 1000)"

subsection \<open>Who writes the treasury\<close>

text \<open>
  The operations that section 4 of the specification lists as writers of the treasury:
  buy, sell, the owner's deposit and the owner's withdrawal.
\<close>

fun spec_treasuryWriter :: "call \<Rightarrow> bool" where
  "spec_treasuryWriter (SwapETHForROLL v) = True"
| "spec_treasuryWriter (SwapROLLForETH a h p) = True"
| "spec_treasuryWriter (AddTreasuryETH v) = True"
| "spec_treasuryWriter WithdrawETH = True"
| "spec_treasuryWriter c = False"

text \<open>The same list with the two payable entry points that take a plain transfer.\<close>

fun treasuryWriter :: "call \<Rightarrow> bool" where
  "treasuryWriter (Receive v) = True"
| "treasuryWriter (Fallback v) = True"
| "treasuryWriter c = spec_treasuryWriter c"

subsection \<open>The win condition in plain terms\<close>

text \<open>
  The sum of the faces that \<open>resolveGame\<close> rolls for a game of \<open>dc\<close> dice, and the
  win condition as the specification words it: the sum is even exactly when the
  prediction decrypts to 0.
\<close>

definition spec_diceSum :: "env \<Rightarrow> uint256 \<Rightarrow> uint8 \<Rightarrow> nat" where
  "spec_diceSum e gameId dc
     = sum_list (map (\<lambda>j. unat (randomValue e gameId (of_nat j))) [0..<unat dc])"

definition spec_won :: "env \<Rightarrow> state \<Rightarrow> uint256 \<Rightarrow> bool" where
  "spec_won e s gameId
     = (even (spec_diceSum e gameId (diceCount (games s gameId)))
          = (decrypt8 (prediction (games s gameId)) = 0))"

text \<open>
  The state that differs from \<open>s\<close> in the stored prediction of one game only; it is
  used to compare what \<open>resolveGame\<close> does under two predictions.
\<close>

definition setPrediction :: "state \<Rightarrow> uint256 \<Rightarrow> euint8 \<Rightarrow> state" where
  "setPrediction s gameId p = s\<lparr>games := (games s)(gameId := (games s gameId)\<lparr>prediction := p\<rparr>)\<rparr>"

subsection \<open>Well-formed games\<close>

text \<open>
  A dice value as \<open>resolveGame\<close> writes it: an encryption of a face from 1 to 6. A
  created game is well formed when its dice count is 1, 2 or 3, its dice array has that
  length, and the array holds zero handles until the game is resolved and faces after.
\<close>

fun isFace :: "euint32 \<Rightarrow> bool" where
  "isFace Uninit32 = False"
| "isFace (Enc32 w) = (1 \<le> w \<and> w \<le> 6)"

definition gameOk :: "game \<Rightarrow> bool" where
  "gameOk g = (diceCount g \<in> {1, 2, 3}
     \<and> length (diceValues g) = unat (diceCount g)
     \<and> (if isResolved g then list_all isFace (diceValues g)
         else diceValues g = replicate (unat (diceCount g)) Uninit32))"

definition gameInv :: "state \<Rightarrow> bool" where
  "gameInv s = (\<forall>gameId. gameId < gameCounter s \<longrightarrow> gameOk (games s gameId))"

section \<open>Properties\<close>

subsection \<open>Shared lemmas\<close>

lemma diceCount_range: "(dc < 1 \<or> dc > 3) = (dc \<notin> {1, 2, 3})" for dc :: uint8
proof -
  have "dc = 1 \<longleftrightarrow> unat dc = 1" "dc = 2 \<longleftrightarrow> unat dc = 2" "dc = 3 \<longleftrightarrow> unat dc = 3"
    by (simp_all add: word_unat_eq_iff)
  then show ?thesis
    by (simp add: word_less_nat_alt) arith
qed

lemma MAX_MINT_value: "unat MAX_MINT = 10 ^ 22"
  by (simp add: MAX_MINT_def ether_def)

subsection \<open>Starting a game with an invalid dice count\<close>

text \<open>
  C9. For every \<open>diceCount\<close> outside \<open>{1,2,3}\<close>, \<open>startGame\<close> reverts with
  \<open>InvalidDiceCount\<close>, whatever the other arguments, and the transaction leaves the
  whole state as it was: no game record, the game counter, the balances and the
  player's list of game ids are all unchanged.
\<close>

theorem startGame_InvalidDiceCount:
  assumes "dc \<notin> {1, 2, 3}"
  shows "startGame e s dc encryptedPrediction predictionProof encryptedStake stakeProof
           = Inl InvalidDiceCount
       \<and> transact e s (StartGame dc encryptedPrediction predictionProof encryptedStake stakeProof) = s"
proof -
  from assms have "dc < 1 \<or> dc > 3"
    using diceCount_range [of dc] by blast
  then have "startGame e s dc encryptedPrediction predictionProof encryptedStake stakeProof
           = Inl InvalidDiceCount"
    unfolding startGame_def by (simp only: if_True)
  then show ?thesis
    by (simp add: transact_def)
qed

theorem startGame_InvalidDiceCount_witness:
  "(4 :: uint8) \<notin> {1, 2, 3}
   \<and> startGame (testEnv 5) (constructor (testEnv 9)) 4 0 [1] 100 [1] = Inl InvalidDiceCount
   \<and> transact (testEnv 5) (constructor (testEnv 9)) (StartGame 4 0 [1] 100 [1])
       = constructor (testEnv 9)"
  using startGame_InvalidDiceCount [of 4 "testEnv 5" "constructor (testEnv 9)" 0 "[1]" 100 "[1]"]
  by simp

subsection \<open>The mint cap\<close>

text \<open>
  C4. \<open>mintTokens amount\<close> reverts with \<open>MaxMintExceeded\<close> exactly when
  \<open>amount > MAX_MINT\<close>, and \<open>MAX_MINT\<close> is \<open>10000 ether\<close>, that is \<open>10^22\<close>. So every
  amount from 10001 to \<open>10^22\<close> is minted, and the value added to the balance is the
  amount truncated to 32 bits.
\<close>

theorem mintTokens_MaxMintExceeded:
  "(mintTokens e s amount = Inl MaxMintExceeded) = (amount > MAX_MINT)
   \<and> unat MAX_MINT = 10 ^ 22
   \<and> (10001 \<le> unat amount \<and> unat amount \<le> 10 ^ 22 \<longrightarrow>
        (\<exists>s'. mintTokens e s amount = Inr s'
           \<and> decrypt32 (playerBalance s' (msg_sender e))
               = decrypt32 (playerBalance s (msg_sender e)) + ucast amount
           \<and> unat (ucast amount :: uint32) = unat amount mod 2 ^ 32))"
proof -
  have a: "(mintTokens e s amount = Inl MaxMintExceeded) = (amount > MAX_MINT)"
    by (simp add: mintTokens_def Let_def)
  have b: "\<not> amount > MAX_MINT" if "unat amount \<le> 10 ^ 22"
    using that by (simp add: word_less_nat_alt MAX_MINT_value)
  have c: "unat (ucast amount :: uint32) = unat amount mod 2 ^ 32"
    by (simp add: unsigned_ucast_eq take_bit_eq_mod)
  show ?thesis
    using a b c MAX_MINT_value
    by (auto simp: mintTokens_def Let_def FHE_add_def asEuint32_def)
qed

theorem mintTokens_MaxMintExceeded_witness:
  "(10001 :: nat) \<le> unat (10001 :: uint256) \<and> unat (10001 :: uint256) \<le> 10 ^ 22
   \<and> (\<exists>s'. mintTokens (testEnv 5) (constructor (testEnv 9)) 10001 = Inr s'
         \<and> decrypt32 (playerBalance s' 5) = 10001)"
  using mintTokens_MaxMintExceeded [of "testEnv 5" "constructor (testEnv 9)" 10001]
  by (simp add: testEnv_def constructor_def)

subsection \<open>Resolving a game\<close>

text \<open>What a successful \<open>resolveGame\<close> checked and what it wrote.\<close>

lemma resolveGame_Inr:
  assumes "resolveGame e s gameId = Inr s'"
  obtains dv sumE where
    "player (games s gameId) = msg_sender e"
    "\<not> isResolved (games s gameId)"
    "rollDice e gameId (diceCount (games s gameId)) 0 (diceValues (games s gameId)) (asEuint32 0)
       = Inr (dv, sumE)"
    "s' = s\<lparr>playerBalance := (playerBalance s)
              (msg_sender e := FHE_add (playerBalance s (msg_sender e))
                 (FHE_select
                    (FHE_eqBool (FHE_eq32 (FHE_and sumE (asEuint32 1)) (asEuint32 0))
                                (FHE_eq8 (prediction (games s gameId)) (asEuint8 0)))
                    (FHE_add (stakeAmount (games s gameId)) (stakeAmount (games s gameId)))
                    (asEuint32 0))),
            games := (games s)(gameId := (games s gameId)\<lparr>diceValues := dv, isResolved := True\<rparr>)\<rparr>"
  using assms unfolding resolveGame_def Let_def
  by (auto split: if_splits sum.splits prod.splits)

lemma transact_Inr: "dispatch e s c = Inr s' \<Longrightarrow> transact e s c = s'"
  by (simp add: transact_def)

lemma transact_Inl: "dispatch e s c = Inl err \<Longrightarrow> transact e s c = s"
  by (simp add: transact_def)

lemma testStarted_game:
  "games testStarted 0 = \<lparr>player = 5, diceCount = 1, prediction = Enc8 0, stakeAmount = Enc32 100,
      diceValues = [Uninit32], timestamp = 1700000000, isResolved = False\<rparr>"
  by (simp add: testStarted_def transact_def mintTokens_def startGame_def fromExternal8_def
      fromExternal32_def testEnv_def constructor_def zeroGame_def Let_def)

lemma testStarted_resolves: "\<exists>s'. resolveGame (testEnv 5) testStarted 0 = Inr s'"
  by (simp add: resolveGame_def Let_def testStarted_game rollDice.simps asEuint32_def split: prod.splits)
     (simp add: testEnv_def)

text \<open>
  C3. After a successful \<open>resolveGame\<close>, a second \<open>resolveGame\<close> of the same game by
  the game's player reverts with \<open>GameAlreadyResolved\<close>, and the state after that
  transaction is the state the first one left: balances, games, counter and treasury.
\<close>

theorem resolveGame_twice:
  assumes "resolveGame e1 s gameId = Inr s1"
    and "msg_sender e2 = player (games s1 gameId)"
  shows "resolveGame e2 s1 gameId = Inl GameAlreadyResolved
       \<and> transact e2 s1 (ResolveGame gameId) = s1"
proof -
  from assms(1) have "isResolved (games s1 gameId)"
    by (auto elim!: resolveGame_Inr)
  with assms(2) have "resolveGame e2 s1 gameId = Inl GameAlreadyResolved"
    by (simp add: resolveGame_def Let_def)
  then show ?thesis
    by (simp add: transact_def)
qed

theorem resolveGame_twice_witness:
  "resolveGame (testEnv 5) testStarted 0 = Inr testResolved
   \<and> msg_sender (testEnv 5) = player (games testResolved 0)
   \<and> resolveGame (testEnv 5) testResolved 0 = Inl GameAlreadyResolved
   \<and> transact (testEnv 5) testResolved (ResolveGame 0) = testResolved"
proof -
  from testStarted_resolves obtain s' where r: "resolveGame (testEnv 5) testStarted 0 = Inr s'"
    by blast
  then have first: "resolveGame (testEnv 5) testStarted 0 = Inr testResolved"
    by (simp add: testResolved_def transact_def)
  from r have "player (games s' 0) = 5"
    by (rule resolveGame_Inr) (simp add: testStarted_game)
  with r first have who: "msg_sender (testEnv 5) = player (games testResolved 0)"
    by (simp add: testEnv_def)
  from resolveGame_twice [OF first who] first who show ?thesis
    by simp
qed

subsection \<open>Writers of the treasury\<close>

lemma resolveGame_thisBalance: "resolveGame e s gameId = Inr s' \<Longrightarrow> thisBalance s' = thisBalance s"
  by (erule resolveGame_Inr) simp

lemma startGame_thisBalance:
  "startGame e s dc ph pp sh sp = Inr s' \<Longrightarrow> thisBalance s' = thisBalance s"
  by (auto simp: startGame_def Let_def split: if_splits sum.splits)

lemma mintTokens_thisBalance: "mintTokens e s amount = Inr s' \<Longrightarrow> thisBalance s' = thisBalance s"
  by (auto simp: mintTokens_def Let_def split: if_splits)

lemma makePublic_thisBalance:
  "makeBalancePubliclyDecryptable e s p = Inr s' \<Longrightarrow> thisBalance s' = thisBalance s"
  by (auto simp: makeBalancePubliclyDecryptable_def split: if_splits)

text \<open>
  C5, as the code has it. A transaction that changes the contract's native balance is a
  buy, a sell, the owner's deposit, the owner's withdrawal, or a plain transfer taken by
  \<open>receive\<close> or \<open>fallback\<close>; minting, starting a game, resolving a game and making a
  balance public never change it.
\<close>

theorem treasury_writers:
  assumes "thisBalance (transact e s c) \<noteq> thisBalance s"
  shows "treasuryWriter c"
proof (cases "dispatch e s c")
  case (Inl err)
  with assms show ?thesis
    by (simp add: transact_def)
next
  case (Inr s')
  with assms have changed: "thisBalance s' \<noteq> thisBalance s"
    by (simp add: transact_def)
  show ?thesis
  proof (cases c)
    case (MintTokens amount)
    with Inr changed show ?thesis
      by (simp add: mintTokens_thisBalance)
  next
    case (StartGame dc ph pp sh sp)
    with Inr changed show ?thesis
      by (simp add: startGame_thisBalance)
  next
    case (ResolveGame gameId)
    with Inr changed show ?thesis
      by (simp add: resolveGame_thisBalance)
  next
    case (MakeBalancePubliclyDecryptable p)
    with Inr changed show ?thesis
      by (simp add: makePublic_thisBalance)
  qed simp_all
qed

theorem treasury_writers_witness:
  "thisBalance (transact (testEnv 5) (constructor (testEnv 9)) (Receive 1))
     \<noteq> thisBalance (constructor (testEnv 9))
   \<and> treasuryWriter (Receive 1)"
  using treasury_writers [of "testEnv 5" "constructor (testEnv 9)" "Receive 1"]
  by (simp add: transact_def receive_def constructor_def)

text \<open>
  C5 as the specification states it fails: anyone's plain transfer of 1 wei, taken by
  \<open>receive\<close>, raises the treasury, and \<open>receive\<close> is none of the four operations.
\<close>

theorem treasury_receive_counterexample:
  "thisBalance (transact (testEnv 5) (constructor (testEnv 9)) (Receive 1))
     \<noteq> thisBalance (constructor (testEnv 9))
   \<and> \<not> spec_treasuryWriter (Receive 1)"
  by (simp add: transact_def receive_def constructor_def)

subsection \<open>Minting twice and minting the sum\<close>

lemma mint_ok: "\<not> amount > MAX_MINT \<Longrightarrow>
  transact e s (MintTokens amount) = s\<lparr>playerBalance := (playerBalance s)
     (msg_sender e := Enc32 (decrypt32 (playerBalance s (msg_sender e)) + ucast amount))\<rparr>"
  by (simp add: transact_def mintTokens_def Let_def FHE_add_def asEuint32_def)

text \<open>
  C7, as the code has it. When \<open>a + b\<close> does not exceed \<open>MAX_MINT\<close> (\<open>10^22\<close>), every
  account's decrypted balance after \<open>mintTokens a\<close> then \<open>mintTokens b\<close> equals its
  decrypted balance after the single \<open>mintTokens (a + b)\<close> from the same state.
\<close>

theorem mint_additive:
  assumes "unat a + unat b \<le> 10 ^ 22"
  shows "decrypt32 (playerBalance (transact e (transact e s (MintTokens a)) (MintTokens b)) acct)
       = decrypt32 (playerBalance (transact e s (MintTokens (a + b))) acct)"
proof -
  have small: "unat a + unat b < 2 ^ 256"
    using assms by simp
  then have sum: "unat (a + b) = unat a + unat b"
    by (simp add: unat_word_ariths)
  have "\<not> a > MAX_MINT" "\<not> b > MAX_MINT" "\<not> a + b > MAX_MINT"
    using assms sum by (simp_all add: word_less_nat_alt MAX_MINT_value)
  moreover have "(ucast (a + b) :: uint32) = ucast a + ucast b"
  proof -
    have "(ucast (a + b) :: uint32) = of_nat (unat (a + b))"
      by simp
    also have "\<dots> = of_nat (unat a + unat b)"
      by (simp only: sum)
    also have "\<dots> = of_nat (unat a) + of_nat (unat b)"
      by (simp only: of_nat_add)
    also have "\<dots> = ucast a + ucast b"
      by simp
    finally show ?thesis .
  qed
  ultimately show ?thesis
    by (simp add: mint_ok add.assoc)
qed

theorem mint_additive_witness:
  "unat (300 :: uint256) + unat (500 :: uint256) \<le> 10 ^ 22
   \<and> decrypt32 (playerBalance (transact (testEnv 5) (transact (testEnv 5) (constructor (testEnv 9))
          (MintTokens 300)) (MintTokens 500)) 5) = 800
   \<and> decrypt32 (playerBalance (transact (testEnv 5) (constructor (testEnv 9)) (MintTokens 800)) 5) = 800"
  using mint_additive [of 300 500 "testEnv 5" "constructor (testEnv 9)" 5]
  by (simp add: transact_def mintTokens_def Let_def FHE_add_def asEuint32_def MAX_MINT_def ether_def
      testEnv_def constructor_def)

text \<open>
  C7 as the specification states it fails at \<open>a = 10^22\<close>, \<open>b = 1\<close>: both mints pass the
  cap and are credited, the single mint of \<open>10^22 + 1\<close> reverts with \<open>MaxMintExceeded\<close>
  and credits nothing.
\<close>

theorem mint_additive_counterexample:
  "decrypt32 (playerBalance (transact (testEnv 5) (transact (testEnv 5) (constructor (testEnv 9))
          (MintTokens 10000000000000000000000)) (MintTokens 1)) 5)
   \<noteq> decrypt32 (playerBalance (transact (testEnv 5) (constructor (testEnv 9))
          (MintTokens (10000000000000000000000 + 1))) 5)"
  by (simp add: transact_def mintTokens_def Let_def FHE_add_def asEuint32_def MAX_MINT_def ether_def
      testEnv_def constructor_def)

subsection \<open>Selling ROLL for native currency\<close>

text \<open>The amount owed for \<open>rollAmount\<close>: the product cannot leave 256 bits.\<close>

lemma ethAmount_value:
  fixes rollAmount :: uint32
  shows "checked_mul (ucast rollAmount :: uint256) ether = Inr (ucast rollAmount * ether)"
    and "unat ((ucast rollAmount :: uint256) * ether div ROLL_TOKEN_RATE)
           = unat rollAmount * 10 ^ 18 div 1000"
proof -
  have b: "unat rollAmount < 2 ^ 32"
    using unsigned_less [of rollAmount] by simp
  have u: "unat (ucast rollAmount :: uint256) = unat rollAmount"
    using b by (simp add: unsigned_ucast_eq take_bit_eq_mod)
  have e: "unat ether = 10 ^ 18"
    by (simp add: ether_def)
  have "unat rollAmount * 10 ^ 18 < 2 ^ 32 * 10 ^ 18"
    using b by simp
  then have small: "unat rollAmount * 10 ^ 18 < 2 ^ 256"
    by simp
  then show "checked_mul (ucast rollAmount :: uint256) ether = Inr (ucast rollAmount * ether)"
    by (simp add: checked_mul_def u e)
  have m: "unat ((ucast rollAmount :: uint256) * ether) = unat rollAmount * 10 ^ 18"
    using small by (simp add: unat_word_ariths u e)
  show "unat ((ucast rollAmount :: uint256) * ether div ROLL_TOKEN_RATE)
           = unat rollAmount * 10 ^ 18 div 1000"
    by (simp add: unat_div m ROLL_TOKEN_RATE_def)
qed

lemma testFunded_values:
  "thisBalance testFunded = 1000000000000000000"
  "playerBalance testFunded 5 = Enc32 1000"
  by (simp_all add: testFunded_def transact_def addTreasuryETH_def mintTokens_def Let_def
      FHE_add_def asEuint32_def MAX_MINT_def ether_def testEnv_def constructor_def)

text \<open>
  C2, as the code has it. For \<open>rollAmount > 0\<close>, \<open>swapROLLForETH\<close> reverts with
  "Insufficient contract ETH balance" exactly when \<open>rollAmount * 10^18 / 1000\<close> exceeds
  the treasury. Otherwise, when the proof of the ciphertext verifies and the caller
  accepts the transfer, the treasury decreases by exactly that amount and the caller's
  decrypted balance decreases (in 32-bit arithmetic) by the plaintext \<open>w\<close> of the
  supplied ciphertext, which nothing ties to \<open>rollAmount\<close>.
\<close>

theorem swapROLLForETH_effect:
  assumes "rollAmount > 0"
  shows "(swapROLLForETH e s rollAmount encryptedAmount amountProof
            = Inl (RequireFailed ''Insufficient contract ETH balance''))
         = (unat rollAmount * 10 ^ 18 div 1000 > unat (thisBalance s))
       \<and> (unat rollAmount * 10 ^ 18 div 1000 \<le> unat (thisBalance s)
            \<and> verify32 e encryptedAmount amountProof = Some w
            \<and> acceptsTransfer e (msg_sender e) \<longrightarrow>
          (\<exists>s'. swapROLLForETH e s rollAmount encryptedAmount amountProof = Inr s'
             \<and> unat (thisBalance s') = unat (thisBalance s) - unat rollAmount * 10 ^ 18 div 1000
             \<and> decrypt32 (playerBalance s' (msg_sender e))
                 = decrypt32 (playerBalance s (msg_sender e)) - w))"
proof -
  let ?owed = "(ucast rollAmount :: uint256) * ether div ROLL_TOKEN_RATE"
  have owed: "unat ?owed = unat rollAmount * 10 ^ 18 div 1000"
    by (rule ethAmount_value)
  have cmp: "(thisBalance s \<ge> ?owed) = (unat rollAmount * 10 ^ 18 div 1000 \<le> unat (thisBalance s))"
    by (simp only: word_le_nat_alt owed)
  have sub: "unat (thisBalance s - ?owed) = unat (thisBalance s) - unat rollAmount * 10 ^ 18 div 1000"
    if "thisBalance s \<ge> ?owed"
    using that by (simp only: unat_sub owed)
  have unfolded: "swapROLLForETH e s rollAmount encryptedAmount amountProof =
     (if \<not> thisBalance s \<ge> ?owed
      then Inl (RequireFailed ''Insufficient contract ETH balance'')
      else
        (case fromExternal32 e encryptedAmount amountProof of
           Inl err \<Rightarrow> Inl err
         | Inr encRollAmount \<Rightarrow>
             if \<not> acceptsTransfer e (msg_sender e) then Inl TransferFailed
             else Inr (s\<lparr>playerBalance := (playerBalance s)
                         (msg_sender e := FHE_sub (playerBalance s (msg_sender e)) encRollAmount),
                       thisBalance := thisBalance s - ?owed\<rparr>)))"
    using assms by (simp add: swapROLLForETH_def ethAmount_value(1) Let_def split: sum.splits)
  have first: "(swapROLLForETH e s rollAmount encryptedAmount amountProof
            = Inl (RequireFailed ''Insufficient contract ETH balance''))
         = (unat rollAmount * 10 ^ 18 div 1000 > unat (thisBalance s))"
    unfolding unfolded using cmp
    by (auto simp: fromExternal32_def split: option.splits)
  have second: "\<exists>s'. swapROLLForETH e s rollAmount encryptedAmount amountProof = Inr s'
             \<and> unat (thisBalance s') = unat (thisBalance s) - unat rollAmount * 10 ^ 18 div 1000
             \<and> decrypt32 (playerBalance s' (msg_sender e))
                 = decrypt32 (playerBalance s (msg_sender e)) - w"
    if "unat rollAmount * 10 ^ 18 div 1000 \<le> unat (thisBalance s)"
      and "verify32 e encryptedAmount amountProof = Some w"
      and "acceptsTransfer e (msg_sender e)"
  proof -
    from that(1) cmp have le: "thisBalance s \<ge> ?owed"
      by simp
    with that(2,3) sub [OF le] show ?thesis
      unfolding unfolded by (simp add: fromExternal32_def FHE_sub_def)
  qed
  from first second show ?thesis
    by blast
qed

theorem swapROLLForETH_effect_witness:
  "(1 :: uint32) > 0
   \<and> unat (1 :: uint32) * 10 ^ 18 div 1000 \<le> unat (thisBalance testFunded)
   \<and> verify32 (testEnv 5) 1 [1] = Some 1
   \<and> acceptsTransfer (testEnv 5) (msg_sender (testEnv 5))
   \<and> (\<exists>s'. swapROLLForETH (testEnv 5) testFunded 1 1 [1] = Inr s'
         \<and> unat (thisBalance s') = 999000000000000000
         \<and> decrypt32 (playerBalance s' 5) = 999)"
  using swapROLLForETH_effect [of 1 "testEnv 5" testFunded 1 "[1]" 1]
  by (simp add: testFunded_values testEnv_def)

text \<open>
  C2 as the specification states it fails: account 5 claims 1 ROLL with a verified
  ciphertext of 0. The treasury pays \<open>10^15\<close> wei and the balance stays at 1000.
\<close>

theorem swapROLLForETH_counterexample:
  "thisBalance (transact (testEnv 5) testFunded (SwapROLLForETH 1 0 [1]))
     = thisBalance testFunded - 1000000000000000
   \<and> decrypt32 (playerBalance (transact (testEnv 5) testFunded (SwapROLLForETH 1 0 [1])) 5)
     \<noteq> decrypt32 (playerBalance testFunded 5) - 1"
  by (simp add: transact_def swapROLLForETH_def checked_mul_def fromExternal32_def FHE_sub_def
      ether_def ROLL_TOKEN_RATE_def Let_def testFunded_values testEnv_def)

subsection \<open>Buying ROLL with native currency\<close>





subsection \<open>The dice loop and the payout\<close>

lemma unat_uint8_Suc: "i < dc \<Longrightarrow> unat (i + 1) = Suc (unat i)" for i dc :: uint8
proof -
  assume "i < dc"
  then have "unat i < unat dc"
    by (simp add: word_less_nat_alt)
  moreover have "unat dc < 2 ^ 8"
    using unsigned_less [of dc] by simp
  ultimately show ?thesis
    by (simp add: unat_word_ariths)
qed

lemma rollDice_sum:
  "rollDice e gameId dc i dv acc = Inr (dv', sumE) \<Longrightarrow>
   decrypt32 sumE = decrypt32 acc
      + sum_list (map (\<lambda>j. randomValue e gameId (of_nat j)) [unat i..<unat dc])"
proof (induction e gameId dc i dv acc rule: rollDice.induct)
  case (1 e gameId dc i dv acc)
  show ?case
  proof (cases "i < dc")
    case False
    then have "unat dc \<le> unat i"
      by (simp add: word_less_nat_alt)
    moreover from False "1.prems" have "sumE = acc"
      by (simp add: rollDice.simps [of e gameId dc i])
    ultimately show ?thesis
      by simp
  next
    case True
    then have lt: "unat i < unat dc"
      by (simp add: word_less_nat_alt)
    from True "1.prems" have inside: "unat i < length dv"
      by (simp add: rollDice.simps [of e gameId dc i] split: if_splits)
    with True "1.prems" have
      "rollDice e gameId dc (i + 1) (dv[unat i := asEuint32 (randomValue e gameId i)])
         (FHE_add acc (asEuint32 (randomValue e gameId i))) = Inr (dv', sumE)"
      by (simp add: rollDice.simps [of e gameId dc i])
    from "1.IH" [OF True inside this]
    have "decrypt32 sumE = decrypt32 acc + randomValue e gameId i
            + sum_list (map (\<lambda>j. randomValue e gameId (of_nat j)) [Suc (unat i)..<unat dc])"
      by (simp add: unat_uint8_Suc [OF True] FHE_add_def asEuint32_def)
    with lt show ?thesis
      by (simp add: upt_conv_Cons add.assoc)
  qed
qed

lemma word_sum_list_of_nat:
  "sum_list (map f xs) = (of_nat (sum_list (map (\<lambda>j. unat (f j)) xs)) :: uint32)"
  by (induction xs) simp_all

lemma even_AND_1: "((of_nat n :: uint32) AND 1 = 0) = even n"
  by (meson even_of_nat even_word_def even_word_iff)

lemma rollDice_isEven:
  assumes "rollDice e gameId dc 0 dv (asEuint32 0) = Inr (dv', sumE)"
  shows "FHE_eq32 (FHE_and sumE (asEuint32 1)) (asEuint32 0) = EncBool (even (spec_diceSum e gameId dc))"
proof -
  from rollDice_sum [OF assms]
  have "decrypt32 sumE = of_nat (spec_diceSum e gameId dc)"
    by (simp add: asEuint32_def spec_diceSum_def word_sum_list_of_nat [symmetric])
  then show ?thesis
    by (simp add: FHE_eq32_def FHE_and_def asEuint32_def even_AND_1)
qed

lemma resolveGame_credit:
  assumes "resolveGame e s gameId = Inr s'"
  shows "playerBalance s' (msg_sender e)
       = FHE_add (playerBalance s (msg_sender e))
           (FHE_select (EncBool (spec_won e s gameId))
              (FHE_add (stakeAmount (games s gameId)) (stakeAmount (games s gameId)))
              (asEuint32 0))"
  using assms
  by (elim resolveGame_Inr)
     (simp add: rollDice_isEven spec_won_def FHE_eqBool_def FHE_eq8_def asEuint8_def)

lemma testStarted_balance: "playerBalance testStarted 5 = Enc32 900"
  by (simp add: testStarted_def transact_def mintTokens_def startGame_def fromExternal8_def
      fromExternal32_def testEnv_def constructor_def zeroGame_def Let_def FHE_add_def FHE_sub_def
      asEuint32_def MAX_MINT_def ether_def)

lemma testStarted_won: "spec_won (testEnv 5) testStarted 0"
  by (simp add: spec_won_def spec_diceSum_def testStarted_game randomValue_def testEnv_def)

text \<open>
  C1. Every successful \<open>resolveGame\<close> adds to the player's encrypted balance the value
  \<open>FHE.select(won, stake + stake, 0)\<close>: both arms are operands of the select and no
  branch of the call depends on \<open>won\<close>. Decrypted, the credit is exactly twice the
  game's stake (in the 32-bit arithmetic of the ciphertext) when the win condition holds
  and exactly 0 when it does not. \<open>PAYOUT_MULTIPLIER\<close> does not occur.
\<close>

theorem resolveGame_payout:
  assumes "resolveGame e s gameId = Inr s'"
  shows "playerBalance s' (msg_sender e)
       = FHE_add (playerBalance s (msg_sender e))
           (FHE_select (EncBool (spec_won e s gameId))
              (FHE_add (stakeAmount (games s gameId)) (stakeAmount (games s gameId)))
              (asEuint32 0))
     \<and> decrypt32 (playerBalance s' (msg_sender e))
       = decrypt32 (playerBalance s (msg_sender e))
           + (if spec_won e s gameId then 2 * decrypt32 (stakeAmount (games s gameId)) else 0)"
  using resolveGame_credit [OF assms]
  by (simp add: FHE_add_def FHE_select_def asEuint32_def)

theorem resolveGame_payout_witness:
  "resolveGame (testEnv 5) testStarted 0 = Inr testResolved
   \<and> spec_won (testEnv 5) testStarted 0
   \<and> decrypt32 (playerBalance testResolved 5) = 1100"
proof -
  from testStarted_resolves have first: "resolveGame (testEnv 5) testStarted 0 = Inr testResolved"
    by (auto simp: testResolved_def transact_def)
  from resolveGame_payout [OF first, THEN conjunct2] testStarted_won
  have "decrypt32 (playerBalance testResolved (msg_sender (testEnv 5))) = 1100"
    by (simp add: testStarted_balance testStarted_game testEnv_def)
  with first testStarted_won show ?thesis
    by (simp add: testEnv_def)
qed

subsection \<open>Predictions other than 0 and 1\<close>

lemma startGame_prediction:
  assumes "dc \<notin> {1, 2, 3} \<Longrightarrow> False"
    and "verify8 e ph pp = Some p"
    and "verify32 e sh sp = Some st"
    and "gameCounter s \<noteq> - 1"
  shows "\<exists>s'. startGame e s dc ph pp sh sp = Inr s'
           \<and> prediction (games s' (gameCounter s)) = Enc8 p"
proof -
  from assms(1) have "\<not> (dc < 1 \<or> dc > 3)"
    using diceCount_range [of dc] by blast
  with assms(2-4) show ?thesis
    by (simp add: startGame_def fromExternal8_def fromExternal32_def Let_def)
qed

lemma resolveGame_nonzero_prediction:
  assumes "p \<noteq> 0"
  shows "resolveGame e (setPrediction s gameId (Enc8 p)) gameId
       = (case resolveGame e (setPrediction s gameId (Enc8 1)) gameId of
            Inl err \<Rightarrow> Inl err
          | Inr t \<Rightarrow> Inr (setPrediction t gameId (Enc8 p)))"
  using assms
  by (cases "games s gameId")
     (auto simp: resolveGame_def setPrediction_def Let_def FHE_eq8_def asEuint8_def
      split: sum.splits prod.splits)

text \<open>
  C10. \<open>startGame\<close> stores whatever 8-bit plaintext \<open>p\<close> the verified prediction
  carries; nothing restricts it to 0 or 1. \<open>resolveGame\<close> pays by the condition
  (dice sum is even) = (\<open>p = 0\<close>). So with any nonzero \<open>p\<close> the call does what it does
  with prediction 1: the same failure, or the same new state up to the stored
  prediction itself.
\<close>

theorem prediction_unconstrained:
  "(dc \<in> {1, 2, 3} \<and> verify8 e ph pp = Some p \<and> verify32 e sh sp = Some st
      \<and> gameCounter s \<noteq> - 1 \<longrightarrow>
      (\<exists>s'. startGame e s dc ph pp sh sp = Inr s'
         \<and> prediction (games s' (gameCounter s)) = Enc8 p))
   \<and> (resolveGame e s gameId = Inr s' \<and> decrypt8 (prediction (games s gameId)) = p \<longrightarrow>
        decrypt32 (playerBalance s' (msg_sender e))
          = decrypt32 (playerBalance s (msg_sender e))
            + (if even (spec_diceSum e gameId (diceCount (games s gameId))) = (p = 0)
               then 2 * decrypt32 (stakeAmount (games s gameId)) else 0))
   \<and> (p \<noteq> 0 \<longrightarrow>
        resolveGame e (setPrediction s gameId (Enc8 p)) gameId
          = (case resolveGame e (setPrediction s gameId (Enc8 1)) gameId of
               Inl err \<Rightarrow> Inl err
             | Inr t \<Rightarrow> Inr (setPrediction t gameId (Enc8 p))))"
proof -
  have credit: "decrypt32 (playerBalance s' (msg_sender e))
          = decrypt32 (playerBalance s (msg_sender e))
            + (if even (spec_diceSum e gameId (diceCount (games s gameId))) = (p = 0)
               then 2 * decrypt32 (stakeAmount (games s gameId)) else 0)"
    if "resolveGame e s gameId = Inr s'" "decrypt8 (prediction (games s gameId)) = p"
    using resolveGame_credit [OF that(1)] that(2)
    by (simp add: spec_won_def FHE_add_def FHE_select_def asEuint32_def)
  from credit startGame_prediction [of dc e ph pp p sh sp st s]
    resolveGame_nonzero_prediction [of p e s gameId]
  show ?thesis
    by blast
qed


theorem prediction_unconstrained_witness:
  "(1 :: uint8) \<in> {1, 2, 3} \<and> verify8 (testEnv 5) 255 [1] = Some 255
   \<and> verify32 (testEnv 5) 100 [1] = Some 100 \<and> gameCounter (constructor (testEnv 9)) \<noteq> - 1
   \<and> (\<exists>s'. startGame (testEnv 5) (constructor (testEnv 9)) 1 255 [1] 100 [1] = Inr s'
         \<and> prediction (games s' 0) = Enc8 255)
   \<and> resolveGame (testEnv 5) testStarted 0 = Inr testResolved
   \<and> decrypt8 (prediction (games testStarted 0)) = 0
   \<and> decrypt32 (playerBalance testResolved 5) = 1100
   \<and> (255 :: uint8) \<noteq> 0
   \<and> resolveGame (testEnv 5) (setPrediction testStarted 0 (Enc8 255)) 0
       = (case resolveGame (testEnv 5) (setPrediction testStarted 0 (Enc8 1)) 0 of
            Inl err \<Rightarrow> Inl err
          | Inr t \<Rightarrow> Inr (setPrediction t 0 (Enc8 255)))"
proof -
  have pre: "(1 :: uint8) \<in> {1, 2, 3}" "verify8 (testEnv 5) 255 [1] = Some 255"
    "verify32 (testEnv 5) 100 [1] = Some 100" "gameCounter (constructor (testEnv 9)) \<noteq> - 1"
    by (simp_all add: testEnv_def constructor_def)
  from testStarted_resolves have first: "resolveGame (testEnv 5) testStarted 0 = Inr testResolved"
    by (auto simp: testResolved_def transact_def)
  have zero: "decrypt8 (prediction (games testStarted 0)) = 0"
    by (simp add: testStarted_game)
  have started: "\<exists>s'. startGame (testEnv 5) (constructor (testEnv 9)) 1 255 [1] 100 [1] = Inr s'
         \<and> prediction (games s' 0) = Enc8 255"
    using prediction_unconstrained [where dc = 1 and e = "testEnv 5" and ph = 255 and pp = "[1]"
        and p = 255 and sh = 100 and sp = "[1]" and st = 100 and s = "constructor (testEnv 9)"] pre
    by (simp add: constructor_def)
  have paid: "decrypt32 (playerBalance testResolved 5) = 1100"
    using prediction_unconstrained [where e = "testEnv 5" and s = testStarted and gameId = 0
        and s' = testResolved and p = 0] first zero testStarted_won
    by (simp add: spec_won_def testStarted_balance testStarted_game testEnv_def)
  have same: "resolveGame (testEnv 5) (setPrediction testStarted 0 (Enc8 255)) 0
       = (case resolveGame (testEnv 5) (setPrediction testStarted 0 (Enc8 1)) 0 of
            Inl err \<Rightarrow> Inl err
          | Inr t \<Rightarrow> Inr (setPrediction t 0 (Enc8 255)))"
    using prediction_unconstrained [where p = 255 and e = "testEnv 5" and s = testStarted
        and gameId = 0]
    by simp
  from pre first zero started paid same show ?thesis
    by simp
qed

subsection \<open>The dice array of a game\<close>

lemma randomValue_range: "1 \<le> randomValue e gameId i \<and> randomValue e gameId i \<le> 6"
proof -
  let ?h = "keccak256_packed e (block_timestamp e) (block_prevrandao e) gameId i"
  have "unat (?h mod 6) < 6"
    by (simp add: unat_mod)
  moreover have "unat (ucast (?h mod 6) :: uint32) = unat (?h mod 6)"
    using \<open>unat (?h mod 6) < 6\<close> by (simp add: unsigned_ucast_eq take_bit_eq_mod)
  ultimately have "unat (ucast (?h mod 6) :: uint32) < 6"
    by simp
  then have "unat (randomValue e gameId i) = unat (ucast (?h mod 6) :: uint32) + 1"
    by (simp add: randomValue_def unat_word_ariths)
  with \<open>unat (ucast (?h mod 6) :: uint32) < 6\<close> show ?thesis
    by (simp add: word_le_nat_alt)
qed

lemma rollDice_values:
  "rollDice e gameId dc i dv acc = Inr (dv', sumE) \<Longrightarrow>
   length dv' = length dv
   \<and> (\<forall>j < length dv. dv' ! j = (if unat i \<le> j \<and> j < unat dc
                                   then Enc32 (randomValue e gameId (of_nat j)) else dv ! j))"
proof (induction e gameId dc i dv acc rule: rollDice.induct)
  case (1 e gameId dc i dv acc)
  show ?case
  proof (cases "i < dc")
    case False
    then have "unat dc \<le> unat i"
      by (simp add: word_less_nat_alt)
    moreover from False "1.prems" have "dv' = dv"
      by (simp add: rollDice.simps [of e gameId dc i])
    ultimately show ?thesis
      by auto
  next
    case True
    then have lt: "unat i < unat dc"
      by (simp add: word_less_nat_alt)
    from True "1.prems" have inside: "unat i < length dv"
      by (simp add: rollDice.simps [of e gameId dc i] split: if_splits)
    with True "1.prems" have
      "rollDice e gameId dc (i + 1) (dv[unat i := asEuint32 (randomValue e gameId i)])
         (FHE_add acc (asEuint32 (randomValue e gameId i))) = Inr (dv', sumE)"
      by (simp add: rollDice.simps [of e gameId dc i])
    from "1.IH" [OF True inside this]
    have len: "length dv' = length dv"
      and rest: "\<forall>j < length dv. dv' ! j =
          (if Suc (unat i) \<le> j \<and> j < unat dc then Enc32 (randomValue e gameId (of_nat j))
           else dv[unat i := asEuint32 (randomValue e gameId i)] ! j)"
      by (simp_all add: unat_uint8_Suc [OF True])
    have "dv' ! j = (if unat i \<le> j \<and> j < unat dc
                     then Enc32 (randomValue e gameId (of_nat j)) else dv ! j)"
      if "j < length dv" for j
    proof (cases "j = unat i")
      case True
      with that rest lt show ?thesis
        by (simp add: asEuint32_def)
    next
      case False
      with that rest show ?thesis
        by auto
    qed
    with len show ?thesis
      by simp
  qed
qed

lemma rollDice_faces:
  assumes "rollDice e gameId dc 0 dv acc = Inr (dv', sumE)" and "length dv = unat dc"
  shows "length dv' = unat dc \<and> list_all isFace dv'"
proof -
  from rollDice_values [OF assms(1)] assms(2)
  have len: "length dv' = unat dc"
    and val: "\<forall>j < unat dc. dv' ! j = Enc32 (randomValue e gameId (of_nat j))"
    by simp_all
  have "isFace (dv' ! j)" if "j < length dv'" for j
    using that len val randomValue_range [of e gameId "of_nat j"] by simp
  then have "list_all isFace dv'"
    by (simp add: list_all_length)
  with len show ?thesis
    by simp
qed

lemma rollDice_total:
  "unat dc \<le> length dv \<Longrightarrow> \<exists>r. rollDice e gameId dc i dv acc = Inr r"
proof (induction e gameId dc i dv acc rule: rollDice.induct)
  case (1 e gameId dc i dv acc)
  show ?case
  proof (cases "i < dc")
    case False
    then show ?thesis
      by (simp add: rollDice.simps [of e gameId dc i])
  next
    case True
    then have "unat i < unat dc"
      by (simp add: word_less_nat_alt)
    with "1.prems" have inside: "unat i < length dv"
      by simp
    from "1.IH" [OF True inside] "1.prems" True inside show ?thesis
      by (simp add: rollDice.simps [of e gameId dc i])
  qed
qed

lemma startGame_Inr:
  assumes "startGame e s dc ph pp sh sp = Inr s'"
  obtains g where "dc \<in> {1, 2, 3}" "gameCounter s \<noteq> - 1"
    "gameCounter s' = gameCounter s + 1"
    "games s' = (games s)(gameCounter s := g)"
    "diceCount g = dc" "diceValues g = replicate (unat dc) Uninit32" "\<not> isResolved g"
    "player g = msg_sender e"
proof -
  from assms have range: "\<not> (dc < 1 \<or> dc > 3)"
    by (auto simp: startGame_def split: if_splits)
  then have "dc \<in> {1, 2, 3}"
    using diceCount_range [of dc] by blast
  with assms range that show ?thesis
    by (auto simp: startGame_def Let_def split: if_splits sum.splits)
qed

lemma dispatch_other:
  assumes "dispatch e s c = Inr s'"
  shows "case c of
           StartGame dc ph pp sh sp \<Rightarrow> True
         | ResolveGame gameId \<Rightarrow> True
         | _ \<Rightarrow> games s' = games s \<and> gameCounter s' = gameCounter s"
  using assms
  by (cases c)
     (auto simp: mintTokens_def swapETHForROLL_def swapROLLForETH_def addTreasuryETH_def
        makeBalancePubliclyDecryptable_def withdrawETH_def receive_def fallback_def Let_def
        split: if_splits sum.splits)

subsection \<open>The life of a dice array\<close>

text \<open>Every state reached from the constructor keeps its created games well formed.\<close>

lemma uint256_less_Suc:
  fixes g c :: uint256
  assumes "c \<noteq> - 1"
  shows "(g < c + 1) = (g < c \<or> g = c)"
proof -
  have "unat c < 2 ^ 256"
    using unsigned_less [of c] by simp
  moreover have "unat c \<noteq> 2 ^ 256 - 1"
    using assms by (simp add: word_unat_eq_iff unsigned_minus_1_eq_mask mask_eq_exp_minus_1)
  ultimately have "unat (c + 1) = unat c + 1"
    by (simp add: unat_word_ariths)
  then show ?thesis
    by (auto simp: word_less_nat_alt word_unat_eq_iff)
qed

lemma gameInv_constructor: "gameInv (constructor e)"
  by (simp add: gameInv_def constructor_def)

lemma gameInv_startGame:
  assumes "gameInv s" and "startGame e s dc ph pp sh sp = Inr s'"
  shows "gameInv s'"
proof -
  from assms(2) obtain g where g: "dc \<in> {1, 2, 3}" "gameCounter s \<noteq> - 1"
    "gameCounter s' = gameCounter s + 1" "games s' = (games s)(gameCounter s := g)"
    "diceCount g = dc" "diceValues g = replicate (unat dc) Uninit32" "\<not> isResolved g"
    by (rule startGame_Inr)
  then have "gameOk g"
    by (simp add: gameOk_def)
  with assms(1) g show ?thesis
    by (auto simp: gameInv_def uint256_less_Suc)
qed

lemma gameInv_resolveGame:
  assumes "gameInv s" and "resolveGame e s gameId = Inr s'"
  shows "gameInv s'"
proof -
  from assms(2) obtain dv sumE where r:
    "\<not> isResolved (games s gameId)"
    "rollDice e gameId (diceCount (games s gameId)) 0 (diceValues (games s gameId)) (asEuint32 0)
       = Inr (dv, sumE)"
    "games s' = (games s)(gameId := (games s gameId)\<lparr>diceValues := dv, isResolved := True\<rparr>)"
    "gameCounter s' = gameCounter s"
    by (rule resolveGame_Inr) simp
  have "gameOk ((games s gameId)\<lparr>diceValues := dv, isResolved := True\<rparr>)"
    if "gameId < gameCounter s"
  proof -
    from assms(1) that have ok: "gameOk (games s gameId)"
      by (simp add: gameInv_def)
    then have "length (diceValues (games s gameId)) = unat (diceCount (games s gameId))"
      by (simp add: gameOk_def)
    from rollDice_faces [OF r(2) this] ok show ?thesis
      by (simp add: gameOk_def)
  qed
  with assms(1) r(3,4) show ?thesis
    by (auto simp: gameInv_def)
qed

lemma gameInv_transact:
  assumes "gameInv s"
  shows "gameInv (transact e s c)"
proof (cases "dispatch e s c")
  case (Inl err)
  with assms show ?thesis
    by (simp add: transact_def)
next
  case (Inr s')
  then have t: "transact e s c = s'"
    by (rule transact_Inr)
  show ?thesis
    unfolding t
  proof (cases c)
    case (StartGame dc ph pp sh sp)
    with Inr assms show "gameInv s'"
      by (auto intro: gameInv_startGame)
  next
    case (ResolveGame gameId)
    with Inr assms show "gameInv s'"
      by (auto intro: gameInv_resolveGame)
  qed (use assms dispatch_other [OF Inr] in \<open>simp_all add: gameInv_def\<close>)
qed

lemma gameInv_run: "gameInv s \<Longrightarrow> gameInv (run s cs)"
  by (induction cs arbitrary: s) (auto simp: gameInv_transact)

text \<open>
  A resolved game is never written again, and only a successful \<open>resolveGame\<close> of a
  game resolves it.
\<close>

lemma resolved_stable:
  assumes "isResolved (games s gameId)" and "gameId < gameCounter s"
  shows "games (transact e s c) gameId = games s gameId \<and> gameId < gameCounter (transact e s c)"
proof (cases "dispatch e s c")
  case (Inl err)
  with assms show ?thesis
    by (simp add: transact_def)
next
  case (Inr s')
  then have t: "transact e s c = s'"
    by (rule transact_Inr)
  show ?thesis
    unfolding t
  proof (cases c)
    case (StartGame dc ph pp sh sp)
    with Inr have "startGame e s dc ph pp sh sp = Inr s'"
      by simp
    then obtain g where "gameCounter s \<noteq> - 1" "gameCounter s' = gameCounter s + 1"
      "games s' = (games s)(gameCounter s := g)"
      by (rule startGame_Inr)
    with assms(2) show "games s' gameId = games s gameId \<and> gameId < gameCounter s'"
      by (auto simp: uint256_less_Suc)
  next
    case (ResolveGame gameId')
    with Inr have r: "resolveGame e s gameId' = Inr s'"
      by simp
    then have "\<not> isResolved (games s gameId')"
      "games s' = (games s)(gameId' := (games s' gameId'))" "gameCounter s' = gameCounter s"
      by (auto elim!: resolveGame_Inr)
    with assms show "games s' gameId = games s gameId \<and> gameId < gameCounter s'"
      by (metis fun_upd_other)
  qed (use assms dispatch_other [OF Inr] in simp_all)
qed

lemma resolved_stable_run:
  "isResolved (games s gameId) \<Longrightarrow> gameId < gameCounter s \<Longrightarrow>
   games (run s cs) gameId = games s gameId"
proof (induction cs arbitrary: s)
  case Nil
  then show ?case by simp
next
  case (Cons x cs)
  obtain e c where x: "x = (e, c)"
    by (cases x)
  from resolved_stable [OF Cons.prems, of e c]
  have same: "games (transact e s c) gameId = games s gameId"
    and below: "gameId < gameCounter (transact e s c)"
    by simp_all
  from Cons.prems(1) same have "isResolved (games (transact e s c) gameId)"
    by simp
  from Cons.IH [OF this below] same x show ?case
    by simp
qed

lemma only_resolveGame_resolves:
  assumes "gameId < gameCounter s" and "\<not> isResolved (games s gameId)"
    and "isResolved (games (transact e s c) gameId)"
  shows "c = ResolveGame gameId \<and> resolveGame e s gameId = Inr (transact e s c)"
proof (cases "dispatch e s c")
  case (Inl err)
  with assms show ?thesis
    by (simp add: transact_def)
next
  case (Inr s')
  then have t: "transact e s c = s'"
    by (rule transact_Inr)
  show ?thesis
    unfolding t
  proof (cases c)
    case (StartGame dc ph pp sh sp)
    with Inr have "startGame e s dc ph pp sh sp = Inr s'"
      by simp
    then obtain g where "games s' = (games s)(gameCounter s := g)"
      by (rule startGame_Inr)
    moreover from assms(1) have "gameId \<noteq> gameCounter s"
      by auto
    ultimately have "games s' gameId = games s gameId"
      by simp
    with assms(2,3) t show "c = ResolveGame gameId \<and> resolveGame e s gameId = Inr s'"
      by simp
  next
    case (ResolveGame gameId')
    with Inr have r: "resolveGame e s gameId' = Inr s'"
      by simp
    then have "games s' = (games s)(gameId' := (games s' gameId'))"
      by (auto elim!: resolveGame_Inr)
    with assms(2,3) t have "gameId' = gameId"
      by (metis fun_upd_other)
    with r ResolveGame show "c = ResolveGame gameId \<and> resolveGame e s gameId = Inr s'"
      by simp
  qed (use assms t dispatch_other [OF Inr] in simp_all)
qed

lemma testStarted_run:
  "testStarted = run (constructor (testEnv 9))
     [(testEnv 5, MintTokens 1000), (testEnv 5, StartGame 1 0 [1] 100 [1])]"
  by (simp add: testStarted_def)

lemma testResolved_run:
  "testResolved = run (constructor (testEnv 9))
     [(testEnv 5, MintTokens 1000), (testEnv 5, StartGame 1 0 [1] 100 [1]),
      (testEnv 5, ResolveGame 0)]"
  by (simp add: testResolved_def testStarted_def)

lemma testStarted_counter: "gameCounter testStarted = 1"
  by (simp add: testStarted_def transact_def mintTokens_def startGame_def fromExternal8_def
      fromExternal32_def testEnv_def constructor_def Let_def)

lemma testResolved_game:
  "games testResolved 0 = \<lparr>player = 5, diceCount = 1, prediction = Enc8 0, stakeAmount = Enc32 100,
      diceValues = [Enc32 4], timestamp = 1700000000, isResolved = True\<rparr>"
  "gameCounter testResolved = 1"
  by (simp_all add: testResolved_def transact_def resolveGame_def Let_def testStarted_game
      testStarted_counter rollDice.simps asEuint32_def randomValue_def testEnv_def)

text \<open>
  C8, as the code has it. In every state reached from the constructor, every created
  game (an id below the game counter) has a dice count of 1, 2 or 3 and a dice array of
  exactly that length, allocated by \<open>startGame\<close>. Until resolution the array holds zero
  handles only. It is populated exactly once: the only transaction that turns the game
  from unresolved to resolved is a successful \<open>resolveGame\<close> of that game. After
  resolution every entry is an encryption of a face from 1 to 6, and no later sequence
  of transactions modifies the array or the resolved flag.
\<close>

theorem diceValues_lifecycle:
  assumes "s = run (constructor e0) cs" and "gameId < gameCounter s"
  shows "diceCount (games s gameId) \<in> {1, 2, 3}
     \<and> length (diceValues (games s gameId)) = unat (diceCount (games s gameId))
     \<and> (\<not> isResolved (games s gameId) \<longrightarrow>
          diceValues (games s gameId) = replicate (unat (diceCount (games s gameId))) Uninit32)
     \<and> (\<not> isResolved (games s gameId) \<and> isResolved (games (transact e s c) gameId) \<longrightarrow>
          c = ResolveGame gameId \<and> resolveGame e s gameId = Inr (transact e s c))
     \<and> (isResolved (games s gameId) \<longrightarrow>
          list_all isFace (diceValues (games s gameId))
          \<and> diceValues (games (run s cs') gameId) = diceValues (games s gameId)
          \<and> isResolved (games (run s cs') gameId))"
proof -
  from assms(1) have "gameInv s"
    by (simp add: gameInv_run gameInv_constructor)
  with assms(2) have ok: "gameOk (games s gameId)"
    by (simp add: gameInv_def)
  from ok have shape: "diceCount (games s gameId) \<in> {1, 2, 3}"
    "length (diceValues (games s gameId)) = unat (diceCount (games s gameId))"
    by (simp_all add: gameOk_def)
  from ok have before: "diceValues (games s gameId)
        = replicate (unat (diceCount (games s gameId))) Uninit32"
    if "\<not> isResolved (games s gameId)"
    using that by (simp add: gameOk_def)
  from ok have after: "list_all isFace (diceValues (games s gameId))"
    if "isResolved (games s gameId)"
    using that by (simp add: gameOk_def)
  have kept: "games (run s cs') gameId = games s gameId" if "isResolved (games s gameId)"
    using that assms(2) by (rule resolved_stable_run)
  from shape before after kept only_resolveGame_resolves [OF assms(2), of e c]
  show ?thesis
    by auto
qed

theorem diceValues_lifecycle_witness:
  "testStarted = run (constructor (testEnv 9))
     [(testEnv 5, MintTokens 1000), (testEnv 5, StartGame 1 0 [1] 100 [1])]
   \<and> 0 < gameCounter testStarted
   \<and> \<not> isResolved (games testStarted 0)
   \<and> diceValues (games testStarted 0) = [Uninit32]
   \<and> isResolved (games (transact (testEnv 5) testStarted (ResolveGame 0)) 0)
   \<and> resolveGame (testEnv 5) testStarted 0 = Inr (transact (testEnv 5) testStarted (ResolveGame 0))
   \<and> testResolved = run (constructor (testEnv 9))
     [(testEnv 5, MintTokens 1000), (testEnv 5, StartGame 1 0 [1] 100 [1]),
      (testEnv 5, ResolveGame 0)]
   \<and> 0 < gameCounter testResolved
   \<and> isResolved (games testResolved 0)
   \<and> diceValues (games testResolved 0) = [Enc32 4]
   \<and> diceValues (games (run testResolved
          [(testEnv 5, ResolveGame 0), (testEnv 7, StartGame 2 1 [1] 5 [1])]) 0) = [Enc32 4]"
proof -
  have a: "0 < gameCounter testStarted" "\<not> isResolved (games testStarted 0)"
    "isResolved (games (transact (testEnv 5) testStarted (ResolveGame 0)) 0)"
    using testResolved_game(1) by (simp_all add: testStarted_counter testStarted_game testResolved_def)
  have b: "0 < gameCounter testResolved" "isResolved (games testResolved 0)"
    by (simp_all add: testResolved_game)
  from diceValues_lifecycle [OF testStarted_run a(1), where e = "testEnv 5" and c = "ResolveGame 0"] a
  have first: "diceValues (games testStarted 0) = [Uninit32]"
    "resolveGame (testEnv 5) testStarted 0 = Inr (transact (testEnv 5) testStarted (ResolveGame 0))"
    by (simp_all add: testStarted_game)
  from diceValues_lifecycle [OF testResolved_run b(1),
      where cs' = "[(testEnv 5, ResolveGame 0), (testEnv 7, StartGame 2 1 [1] 5 [1])]"] b
  have second: "diceValues (games (run testResolved
          [(testEnv 5, ResolveGame 0), (testEnv 7, StartGame 2 1 [1] 5 [1])]) 0) = [Enc32 4]"
    by (simp add: testResolved_game)
  from a b first second testStarted_run testResolved_run testResolved_game show ?thesis
    by simp
qed

text \<open>
  C8 as the specification states it fails: after \<open>startGame\<close> with one die, game 0 is
  not resolved and its dice array is not empty; it has one zero handle.
\<close>

theorem diceValues_not_empty_counterexample:
  "\<not> isResolved (games testStarted 0) \<and> diceValues (games testStarted 0) \<noteq> []"
  by (simp add: testStarted_game)

end
